theory Spec2Isabelle
  imports Main "HOL-Library.Word" "HOL-Library.List_Lexorder"
begin

section \<open>JavaScript strings\<close>

text \<open>
  A JavaScript string is a sequence of 16-bit UTF-16 code units; \<open>s.length\<close> counts code
  units and \<open>s[i]\<close> is the one-unit string at index \<open>i\<close>, or \<open>undefined\<close> when \<open>i\<close> is
  out of range. \<open>js\<close> embeds an ASCII literal.
\<close>

type_synonym code_unit = "16 word"
type_synonym jsstring = "code_unit list"

definition js :: "string \<Rightarrow> jsstring" where
  "js s = map of_char s"

text \<open>\<open>s[i]\<close>: \<open>None\<close> stands for \<open>undefined\<close>.\<close>

definition charAt :: "jsstring \<Rightarrow> nat \<Rightarrow> code_unit option" where
  "charAt s i = (if i < length s then Some (s ! i) else None)"

text \<open>\<open>res += x\<close> for \<open>x = s[i]\<close>: string concatenation turns \<open>undefined\<close> into the text
  \<open>"undefined"\<close>.\<close>

definition appendIndexed :: "jsstring \<Rightarrow> code_unit option \<Rightarrow> jsstring" where
  "appendIndexed res x = res @ (case x of Some c \<Rightarrow> [c] | None \<Rightarrow> js ''undefined'')"

text \<open>
  The code units that \<open>String.prototype.trim\<close> strips: ECMAScript's WhiteSpace and
  LineTerminator productions (TAB, LF, VT, FF, CR, SP, NBSP, U+1680, U+2000..U+200A, LS, PS,
  U+202F, U+205F, U+3000, BOM).
\<close>

definition isWhiteSpace :: "code_unit \<Rightarrow> bool" where
  "isWhiteSpace c \<longleftrightarrow>
     c \<in> set [0x09, 0x0A, 0x0B, 0x0C, 0x0D, 0x20, 0xA0, 0x1680, 0x2028, 0x2029,
              0x202F, 0x205F, 0x3000, 0xFEFF]
     \<or> (0x2000 \<le> c \<and> c \<le> 0x200A)"

definition trim :: "jsstring \<Rightarrow> jsstring" where
  "trim s = rev (dropWhile isWhiteSpace (rev (dropWhile isWhiteSpace s)))"

text \<open>
  \<open>toLowerCase\<close> and \<open>toUpperCase\<close> are built into the language and driven by the Unicode
  case tables, so the functions below take them as arguments. The closed examples use the
  following excerpt of the tables: the ASCII letters, and U+0130 (LATIN CAPITAL LETTER I
  WITH DOT ABOVE), whose lower-case form is the two code units U+0069 U+0307
  (SpecialCasing.txt) and whose upper-case form is itself. No other cased letter occurs in
  an example.
\<close>

definition lowerOf :: "code_unit \<Rightarrow> jsstring" where
  "lowerOf c = (if 0x41 \<le> c \<and> c \<le> 0x5A then [c + 0x20]
                else if c = 0x130 then [0x69, 0x307] else [c])"

definition upperOf :: "code_unit \<Rightarrow> jsstring" where
  "upperOf c = (if 0x61 \<le> c \<and> c \<le> 0x7A then [c - 0x20] else [c])"

definition toLowerCase :: "jsstring \<Rightarrow> jsstring" where
  "toLowerCase s = concat (map lowerOf s)"

definition toUpperCase :: "jsstring \<Rightarrow> jsstring" where
  "toUpperCase s = concat (map upperOf s)"

text \<open>The same excerpt restricted to ASCII, one code unit at a time.\<close>

definition asciiLower :: "code_unit \<Rightarrow> code_unit" where
  "asciiLower c = (if 0x41 \<le> c \<and> c \<le> 0x5A then c + 0x20 else c)"

definition asciiUpper :: "code_unit \<Rightarrow> code_unit" where
  "asciiUpper c = (if 0x61 \<le> c \<and> c \<le> 0x7A then c - 0x20 else c)"

section \<open>JavaScript numbers\<close>

text \<open>
  A JavaScript number is a double. An integer below \<open>2^53\<close> is a number as it is; a
  larger one is rounded to the nearest double, to the even one of two that are equally
  near, and to \<open>Infinity\<close> from \<open>2^1024 - 2^970\<close> on. \<open>toNumber\<close> is that rounding of an
  integer that is not negative; \<open>NaN\<close> is what \<open>parseInt\<close> gives where there is no digit,
  and no id of a record is \<open>NaN\<close> or \<open>Infinity\<close>.
\<close>

datatype jsnumber = Finite int | Infinity | NaN

function bitLength :: "int \<Rightarrow> nat" where
  "bitLength n = (if n \<le> 0 then 0 else Suc (bitLength (n div 2)))"
  by pat_completeness auto
termination
  by (relation "measure nat") auto

declare bitLength.simps [simp del]

definition toNumber :: "int \<Rightarrow> jsnumber" where
  "toNumber n =
     (if n < 2 ^ 53 then Finite n
      else
        (let e = bitLength n - 53;
             q = n div 2 ^ e;
             r = n mod 2 ^ e;
             half = 2 ^ (e - 1);
             m = (if r > half \<or> (r = half \<and> odd q) then q + 1 else q);
             v = m * 2 ^ e
         in if v < 2 ^ 1024 then Finite v else Infinity))"

text \<open>
  \<open>parseInt\<close> on a string that starts with decimal digits (the code applies it to a run
  of digits): the number of the digits, and \<open>NaN\<close> when there is none. \<open>decimalValue\<close> is
  the integer the digits denote. (Past the twentieth significant digit the language also
  allows an approximation of that integer; the rounding here is the exact one.)
\<close>

definition isDigit :: "code_unit \<Rightarrow> bool" where
  "isDigit c \<longleftrightarrow> 0x30 \<le> c \<and> c \<le> 0x39"

definition decimalValue :: "jsstring \<Rightarrow> int" where
  "decimalValue s = foldl (\<lambda>n c. 10 * n + uint (c - 0x30)) 0 (takeWhile isDigit s)"

definition parseInt :: "jsstring \<Rightarrow> jsnumber" where
  "parseInt s = (if takeWhile isDigit s = [] then NaN else toNumber (decimalValue s))"

section \<open>Name normalisation\<close>

text \<open>
  \<^verbatim>\<open>removeSpecials(str, allowedChars)\<close>: the loop runs over the indices of \<open>lower\<close> and
  reads \<open>lower[i]\<close>, \<open>upper[i]\<close> and \<open>str[i]\<close>; the three strings need not have the same
  length. \<open>lower[i].trim() === ""\<close> is written as it stands.
\<close>

function removeSpecials_loop ::
  "jsstring \<Rightarrow> jsstring \<Rightarrow> jsstring \<Rightarrow> jsstring list \<Rightarrow> nat \<Rightarrow> jsstring \<Rightarrow> jsstring" where
  "removeSpecials_loop lower upper str allowedChars i res =
     (if i < length lower then
        removeSpecials_loop lower upper str allowedChars (Suc i)
          (if charAt lower i \<noteq> charAt upper i
              \<or> trim [lower ! i] = []
              \<or> [lower ! i] \<in> set allowedChars
           then appendIndexed res (charAt str i) else res)
      else res)"
  by pat_completeness auto
termination
  by (relation "measure (\<lambda>(lower, upper, str, allowedChars, i, res). length lower - i)") auto

declare removeSpecials_loop.simps [simp del]

definition removeSpecials ::
  "(jsstring \<Rightarrow> jsstring) \<Rightarrow> (jsstring \<Rightarrow> jsstring) \<Rightarrow> jsstring \<Rightarrow> jsstring list option
     \<Rightarrow> jsstring" where
  "removeSpecials lowerCase upperCase str allowedChars =
     (let lower = lowerCase str;
          upper = upperCase str;
          allowed = (case allowedChars of None \<Rightarrow> [] | Some a \<Rightarrow> a)
      in trim (removeSpecials_loop lower upper str allowed 0 []))"

text \<open>
  When the case conversions work code unit by code unit (\<open>lc\<close> and \<open>uc\<close>), the test of
  the loop is a test on the code unit of \<open>str\<close> itself: its two forms differ, or its
  lower-case form is white space, or its lower-case form is among \<open>allowedChars\<close>.
\<close>

definition keeps ::
  "(code_unit \<Rightarrow> code_unit) \<Rightarrow> (code_unit \<Rightarrow> code_unit) \<Rightarrow> jsstring list \<Rightarrow> code_unit \<Rightarrow> bool" where
  "keeps lc uc allowedChars c \<longleftrightarrow>
     lc c \<noteq> uc c \<or> isWhiteSpace (lc c) \<or> [lc c] \<in> set allowedChars"

text \<open>
  The normaliser as the specification words it: a character stays when its lower-case and
  upper-case forms are identical or when it is in the allow-list; the result is trimmed.
\<close>

definition normalize_spec ::
  "(code_unit \<Rightarrow> code_unit) \<Rightarrow> (code_unit \<Rightarrow> code_unit) \<Rightarrow> jsstring \<Rightarrow> jsstring list \<Rightarrow> jsstring" where
  "normalize_spec lc uc raw allowList =
     trim (filter (\<lambda>c. lc c = uc c \<or> [c] \<in> set allowList) raw)"

text \<open>
  \<^verbatim>\<open>name.replace(/\[(.*?)\]/g, "")\<close>. The dot of a regular expression matches any code unit
  but a line terminator (LF, CR, LS, PS) and \<open>*?\<close> is lazy, so a match that starts at a
  \<open>[\<close> ends at the first \<open>]\<close> after it, and there is none when a line terminator or the
  end of the string comes first (\<open>tagCloses\<close>). \<open>skipTag\<close> drops the matched text up to and
  including that \<open>]\<close>; the search goes on behind it.
\<close>

definition isLineTerminator :: "code_unit \<Rightarrow> bool" where
  "isLineTerminator c \<longleftrightarrow> c \<in> set [0x0A, 0x0D, 0x2028, 0x2029]"

fun tagCloses :: "jsstring \<Rightarrow> bool" where
  "tagCloses [] = False"
| "tagCloses (c # cs) =
     (if c = 0x5D then True else if isLineTerminator c then False else tagCloses cs)"

fun replaceTags :: "jsstring \<Rightarrow> jsstring" and skipTag :: "jsstring \<Rightarrow> jsstring" where
  "replaceTags [] = []"
| "replaceTags (c # cs) =
     (if c = 0x5B \<and> tagCloses cs then skipTag cs else c # replaceTags cs)"
| "skipTag [] = []"
| "skipTag (c # cs) = (if c = 0x5D then replaceTags cs else skipTag cs)"

text \<open>The character class of \<open>rxSpecials\<close>: slash, backslash, question mark, percent,
  asterisk, colon, vertical bar, double quote, less-than and greater-than. The code replaces
  them by nothing (in \<open>cleanGameName\<close>) or by a space (in the duplicate check).\<close>

definition isReserved :: "code_unit \<Rightarrow> bool" where
  "isReserved c \<longleftrightarrow>
     c \<in> set [0x2F, 0x5C, 0x3F, 0x25, 0x2A, 0x3A, 0x7C, 0x22, 0x3C, 0x3E]"

definition removeReserved :: "jsstring \<Rightarrow> jsstring" where
  "removeReserved s = filter (\<lambda>c. \<not> isReserved c) s"

definition blankReserved :: "jsstring \<Rightarrow> jsstring" where
  "blankReserved s = map (\<lambda>c. if isReserved c then 0x20 else c) s"

text \<open>
  The allow-list of \<open>cleanGameName\<close>: the one-character strings for the dash, the two
  square brackets, the dot and the ten digits, in the order of the source.
\<close>

definition cleanGameName_allowed :: "jsstring list" where
  "cleanGameName_allowed = map (\<lambda>c. [c]) (js ''-[].0123456789'')"

definition cleanGameName ::
  "(jsstring \<Rightarrow> jsstring) \<Rightarrow> (jsstring \<Rightarrow> jsstring) \<Rightarrow> jsstring \<Rightarrow> jsstring" where
  "cleanGameName lowerCase upperCase name =
     trim (removeReserved (replaceTags
       (removeSpecials lowerCase upperCase name (Some cleanGameName_allowed))))"

text \<open>
  \<^verbatim>\<open>s.indexOf(p, from)\<close> is the first index at or after \<open>from\<close> where \<open>p\<close> occurs, or \<open>-1\<close>;
  \<^verbatim>\<open>s.substr(start, len)\<close> is empty when \<open>len\<close> is not positive.
\<close>

fun indexOf_scan :: "jsstring \<Rightarrow> jsstring \<Rightarrow> nat \<Rightarrow> int" where
  "indexOf_scan p [] i = (if p = [] then int i else - 1)"
| "indexOf_scan p (c # cs) i =
     (if take (length p) (c # cs) = p then int i else indexOf_scan p cs (Suc i))"

definition indexOf :: "jsstring \<Rightarrow> jsstring \<Rightarrow> nat \<Rightarrow> int" where
  "indexOf s p from = indexOf_scan p (drop from s) (min from (length s))"

definition String_includes :: "jsstring \<Rightarrow> jsstring \<Rightarrow> bool" where
  "String_includes s p \<longleftrightarrow> indexOf s p 0 \<noteq> - 1"

definition substr :: "jsstring \<Rightarrow> int \<Rightarrow> int \<Rightarrow> jsstring" where
  "substr s start len = (if len \<le> 0 then [] else take (nat len) (drop (nat start) s))"

definition PREFIX_VERSION :: jsstring where
  "PREFIX_VERSION = js ''[V.''"

definition getGameVersionFromName :: "(jsstring \<Rightarrow> jsstring) \<Rightarrow> jsstring \<Rightarrow> jsstring" where
  "getGameVersionFromName upperCase name =
     (if String_includes (upperCase name) PREFIX_VERSION then
        (let startIndex = indexOf (upperCase name) PREFIX_VERSION 0 + int (length PREFIX_VERSION);
             endIndex = indexOf name (js '']'') (nat startIndex)
         in substr name startIndex (endIndex - startIndex))
      else js ''Unknown'')"

section \<open>Records and collaborators\<close>

text \<open>
  \<open>GameInfo\<close> is what RemoteCatalog returns, \<open>GameRecord\<close> what LibraryStore keeps and
  \<open>ThreadRecord\<close> what ThreadStore keeps. Ids are JavaScript numbers; they are modelled as
  exact integers.
\<close>

record GameInfo =
  gi_id :: int
  gi_name :: jsstring
  gi_url :: jsstring
  gi_author :: jsstring
  gi_version :: jsstring
  gi_tags :: "jsstring list"

record GameRecord =
  g_id :: int
  g_name :: jsstring
  g_version :: jsstring
  g_tags :: "jsstring list"
  g_author :: jsstring
  g_gameDirectory :: "jsstring option"
  g_savePaths :: "jsstring list"

record ThreadRecord =
  t_id :: int
  t_url :: jsstring
  t_name :: jsstring
  t_tags :: "jsstring list"
  t_updateAvailable :: bool
  t_markedAsRead :: bool

text \<open>A call of RemoteCatalog either returns or throws.\<close>

datatype error = RemoteLookupFailed

type_synonym LibraryStore = "GameRecord list"
type_synonym ThreadStore = "ThreadRecord list"

text \<open>
  Modelled from the spec: \<open>window.GIE.convert\<close> and \<open>window.TI.convert\<close> are not among the
  sources. The spec calls them opaque mappers from raw \<open>GameInfo\<close> to the \<open>GameRecord\<close>
  shape and to the \<open>ThreadRecord\<close> shape, a thread record being created with
  \<open>updateAvailable\<close> and \<open>markedAsRead\<close> at their default (false).
\<close>

definition GIE_convert :: "GameInfo \<Rightarrow> GameRecord" where
  "GIE_convert info =
     \<lparr>g_id = gi_id info, g_name = gi_name info, g_version = gi_version info,
      g_tags = gi_tags info, g_author = gi_author info, g_gameDirectory = None,
      g_savePaths = []\<rparr>"

definition TI_convert :: "GameInfo \<Rightarrow> ThreadRecord" where
  "TI_convert info =
     \<lparr>t_id = gi_id info, t_url = gi_url info, t_name = gi_name info, t_tags = gi_tags info,
      t_updateAvailable = False, t_markedAsRead = False\<rparr>"

text \<open>
  Modelled from the spec: \<open>window.GameDB\<close> and \<open>window.ThreadDB\<close> are not among the sources.
  The spec gives each store \<open>search(filter, sort)\<close> with a partial record as filter (a
  record matches when it agrees with every field the filter gives) and an optional sort
  field, \<open>insert(record)\<close>, and \<open>write(record)\<close>, an upsert that fully replaces the record
  of the same id. A store is the list of its records; the filters are the ones the code
  builds. Names are compared code unit by code unit and the sort is stable.
\<close>

record GameFilter =
  gq_id :: "int option"

record ThreadFilter =
  tq_id :: "jsnumber option"
  tq_updateAvailable :: "bool option"
  tq_markedAsRead :: "bool option"

datatype sortOrder = Unsorted | ByNameAscending

definition agrees :: "'a option \<Rightarrow> 'a \<Rightarrow> bool" where
  "agrees q v = (case q of None \<Rightarrow> True | Some w \<Rightarrow> v = w)"

definition GameDB_search :: "LibraryStore \<Rightarrow> GameFilter \<Rightarrow> GameRecord list" where
  "GameDB_search db q = filter (\<lambda>g. agrees (gq_id q) (g_id g)) db"

definition GameDB_insert :: "LibraryStore \<Rightarrow> GameRecord \<Rightarrow> LibraryStore" where
  "GameDB_insert db g = db @ [g]"

definition ThreadDB_search :: "ThreadStore \<Rightarrow> ThreadFilter \<Rightarrow> sortOrder \<Rightarrow> ThreadRecord list" where
  "ThreadDB_search db q order =
     (let found = filter (\<lambda>t. agrees (tq_id q) (Finite (t_id t))
                            \<and> agrees (tq_updateAvailable q) (t_updateAvailable t)
                            \<and> agrees (tq_markedAsRead q) (t_markedAsRead t)) db
      in case order of Unsorted \<Rightarrow> found | ByNameAscending \<Rightarrow> sort_key t_name found)"

definition ThreadDB_insert :: "ThreadStore \<Rightarrow> ThreadRecord \<Rightarrow> ThreadStore" where
  "ThreadDB_insert db t = db @ [t]"

definition ThreadDB_write :: "ThreadStore \<Rightarrow> ThreadRecord \<Rightarrow> ThreadStore" where
  "ThreadDB_write db t =
     (if t_id t \<in> set (map t_id db)
      then map (\<lambda>old. if t_id old = t_id t then t else old) db
      else db @ [t])"

definition allGames :: GameFilter where
  "allGames = \<lparr>gq_id = None\<rparr>"

definition gameWithId :: "int \<Rightarrow> GameFilter" where
  "gameWithId i = \<lparr>gq_id = Some i\<rparr>"

definition allThreads :: ThreadFilter where
  "allThreads = \<lparr>tq_id = None, tq_updateAvailable = None, tq_markedAsRead = None\<rparr>"

definition threadWithId :: "jsnumber \<Rightarrow> ThreadFilter" where
  "threadWithId i = \<lparr>tq_id = Some i, tq_updateAvailable = None, tq_markedAsRead = None\<rparr>"

definition updatedUnread :: ThreadFilter where
  "updatedUnread = \<lparr>tq_id = None, tq_updateAvailable = Some True, tq_markedAsRead = Some False\<rparr>"

section \<open>Duplicate check of selected directories\<close>

text \<open>
  \<^verbatim>\<open>getUnlistedGamesInArrayOfPath(paths)\<close>. \<open>window.API.getDirName\<close> is not among the sources
  and is an argument. The function returns \<open>gameFolderPaths\<close>; the warnings it shows are
  kept beside it.
\<close>

datatype toast =
    GameAlreadyListed jsstring
  | MultipleDuplicateGames nat
  | NoDirectorySelected
  | AddingGameFromUrl
  | GameSuccessfullyAdded jsstring

definition MAX_NUMBER_OF_PRESENT_GAMES_FOR_MESSAGES :: nat where
  "MAX_NUMBER_OF_PRESENT_GAMES_FOR_MESSAGES = 5"

fun unlisted_loop ::
  "(jsstring \<Rightarrow> jsstring) \<Rightarrow> (jsstring \<Rightarrow> jsstring) \<Rightarrow> (jsstring \<Rightarrow> jsstring) \<Rightarrow> jsstring list
     \<Rightarrow> jsstring list \<Rightarrow> jsstring list \<times> jsstring list \<Rightarrow> jsstring list \<times> jsstring list" where
  "unlisted_loop lowerCase upperCase getDirName listedGameNames [] acc = acc"
| "unlisted_loop lowerCase upperCase getDirName listedGameNames (path # paths)
     (gameFolderPaths, alreadyPresentGames) =
     (let unparsedName = getDirName path;
          newGameName = trim (blankReserved (cleanGameName lowerCase upperCase unparsedName))
      in if upperCase newGameName \<notin> set listedGameNames
         then unlisted_loop lowerCase upperCase getDirName listedGameNames paths
                (gameFolderPaths @ [path], alreadyPresentGames)
         else unlisted_loop lowerCase upperCase getDirName listedGameNames paths
                (gameFolderPaths, alreadyPresentGames @ [newGameName]))"

definition getUnlistedGamesInArrayOfPath ::
  "(jsstring \<Rightarrow> jsstring) \<Rightarrow> (jsstring \<Rightarrow> jsstring) \<Rightarrow> (jsstring \<Rightarrow> jsstring) \<Rightarrow> LibraryStore
     \<Rightarrow> jsstring list \<Rightarrow> toast list \<times> jsstring list" where
  "getUnlistedGamesInArrayOfPath lowerCase upperCase getDirName gameDB paths =
     (let games = GameDB_search gameDB allGames;
          listedGameNames =
            map (\<lambda>game. upperCase
                   (trim (blankReserved (cleanGameName lowerCase upperCase (g_name game)))))
              games;
          (gameFolderPaths, alreadyPresentGames) =
            unlisted_loop lowerCase upperCase getDirName listedGameNames paths ([], []);
          toasts =
            (if length alreadyPresentGames \<le> MAX_NUMBER_OF_PRESENT_GAMES_FOR_MESSAGES
             then map GameAlreadyListed alreadyPresentGames
             else [MultipleDuplicateGames (length alreadyPresentGames)])
      in (toasts, gameFolderPaths))"

text \<open>
  The key as the specification words it: \<open>cleanGameName\<close> of the name, the reserved
  characters stripped a second time, the result upper-cased.
\<close>

definition installedKey :: "(jsstring \<Rightarrow> jsstring) \<Rightarrow> (jsstring \<Rightarrow> jsstring) \<Rightarrow> jsstring \<Rightarrow> jsstring" where
  "installedKey lowerCase upperCase name =
     upperCase (removeReserved (cleanGameName lowerCase upperCase name))"

text \<open>\<^verbatim>\<open>selectGameDirectories\<close>, given the paths the dialog returned.\<close>

definition selectGameDirectories ::
  "(jsstring \<Rightarrow> jsstring) \<Rightarrow> (jsstring \<Rightarrow> jsstring) \<Rightarrow> (jsstring \<Rightarrow> jsstring) \<Rightarrow> LibraryStore
     \<Rightarrow> jsstring list \<Rightarrow> toast list \<times> jsstring list" where
  "selectGameDirectories lowerCase upperCase getDirName gameDB filePaths =
     (if length filePaths = 0 then ([NoDirectorySelected], [])
      else getUnlistedGamesInArrayOfPath lowerCase upperCase getDirName gameDB filePaths)"

section \<open>Adding a game by URL\<close>

text \<open>
  The properties of an array that the code reads by name: \<open>length\<close> is the number of
  elements; \<open>lenght\<close> is neither an own nor an inherited property of an array, and reading it
  gives \<open>undefined\<close> (\<open>None\<close>). \<open>x !== 0\<close> holds for every \<open>x\<close> but the number zero.
\<close>

definition arrayProperty :: "'a list \<Rightarrow> jsstring \<Rightarrow> int option" where
  "arrayProperty xs p = (if p = js ''length'' then Some (int (length xs)) else None)"

definition strictNotEqual :: "int option \<Rightarrow> int \<Rightarrow> bool" where
  "strictNotEqual x n \<longleftrightarrow> (case x of None \<Rightarrow> True | Some m \<Rightarrow> m \<noteq> n)"

text \<open>
  \<^verbatim>\<open>onAddRemoteGame\<close>, given the paths of the directory dialog and the answer of the URL
  prompt (\<open>None\<close> when it is cancelled; \<open>!url\<close> also holds for the empty string). The result
  is the store afterwards, the messages shown and the error thrown, if any.
\<close>

definition onAddRemoteGame ::
  "(jsstring \<Rightarrow> jsstring) \<Rightarrow> (jsstring \<Rightarrow> jsstring) \<Rightarrow> (jsstring \<Rightarrow> jsstring)
     \<Rightarrow> (jsstring \<Rightarrow> error + GameInfo) \<Rightarrow> LibraryStore \<Rightarrow> jsstring list \<Rightarrow> jsstring option
     \<Rightarrow> LibraryStore \<times> toast list \<times> error option" where
  "onAddRemoteGame lowerCase upperCase getDirName getGameDataFromURL gameDB filePaths urlInput =
     (let (shown, gameFolderPaths) =
            selectGameDirectories lowerCase upperCase getDirName gameDB filePaths
      in case gameFolderPaths of
           [] \<Rightarrow> (gameDB, shown, None)
         | gamePath # others \<Rightarrow>
             (case urlInput of
                None \<Rightarrow> (gameDB, shown, None)
              | Some url \<Rightarrow>
                  if url = [] then (gameDB, shown, None)
                  else
                    (let unparsedName = getDirName gamePath;
                         version = getGameVersionFromName upperCase unparsedName
                     in case getGameDataFromURL url of
                          Inl e \<Rightarrow> (gameDB, shown @ [AddingGameFromUrl], Some e)
                        | Inr info \<Rightarrow>
                            (let entry = GameDB_search gameDB (gameWithId (gi_id info))
                             in if strictNotEqual (arrayProperty entry (js ''lenght'')) 0
                                then (gameDB,
                                      shown @ [AddingGameFromUrl, GameAlreadyListed (gi_name info)],
                                      None)
                                else
                                  (let converted =
                                         (GIE_convert info)
                                           \<lparr>g_version := version, g_gameDirectory := Some gamePath\<rparr>
                                   in (GameDB_insert gameDB converted,
                                       shown @ [AddingGameFromUrl,
                                                GameSuccessfullyAdded (g_name converted)],
                                       None))))))"

section \<open>Watched threads\<close>

text \<open>
  \<^verbatim>\<open>url.match(/\.[0-9]+/)\<close> gives the first dot that is followed by a digit, together with
  all the digits after it; \<^verbatim>\<open>match[0].replace(".", "")\<close> removes that dot and \<open>parseInt\<close>
  gives the number of the digits. The id of a stored record is an integer; the store
  compares it, as a number, with the id of the filter.
\<close>

fun matchThreadId :: "jsstring \<Rightarrow> jsstring option" where
  "matchThreadId [] = None"
| "matchThreadId (c # cs) =
     (if c = 0x2E \<and> takeWhile isDigit cs \<noteq> [] then Some (c # takeWhile isDigit cs)
      else matchThreadId cs)"

text \<open>
  One turn of the loop of \<^verbatim>\<open>syncDatabaseWatchedThreads\<close>: \<open>Inr\<close> the store afterwards, or
  \<open>Inl\<close> the error that \<open>getGameDataFromURL\<close> threw; the store has not been touched then.
\<close>

definition syncThread ::
  "(jsstring \<Rightarrow> error + GameInfo) \<Rightarrow> ThreadStore \<Rightarrow> jsstring \<Rightarrow> error + ThreadStore" where
  "syncThread getGameDataFromURL threadDB url =
     (case matchThreadId url of
        None \<Rightarrow> Inr threadDB
      | Some match \<Rightarrow>
          (let id = parseInt (remove1 0x2E match);
               thread = ThreadDB_search threadDB (threadWithId id) Unsorted
           in case thread of
                [] \<Rightarrow>
                  (case getGameDataFromURL url of
                     Inl e \<Rightarrow> Inl e
                   | Inr gameInfo \<Rightarrow> Inr (ThreadDB_insert threadDB (TI_convert gameInfo)))
              | first # others \<Rightarrow>
                  if t_url first = url then Inr threadDB
                  else
                    (case getGameDataFromURL url of
                       Inl e \<Rightarrow> Inl e
                     | Inr gameInfo \<Rightarrow>
                         Inr (ThreadDB_write threadDB
                                ((TI_convert gameInfo)
                                   \<lparr>t_updateAvailable := True, t_markedAsRead := False\<rparr>)))))"

text \<open>
  The loop has no handler: an error thrown in one turn leaves the function, and the
  URLs after it are not looked at. The result is the store as the call leaves it and the
  error, if one was thrown.
\<close>

fun syncDatabaseWatchedThreads ::
  "(jsstring \<Rightarrow> error + GameInfo) \<Rightarrow> ThreadStore \<Rightarrow> jsstring list \<Rightarrow> ThreadStore \<times> error option" where
  "syncDatabaseWatchedThreads getGameDataFromURL threadDB [] = (threadDB, None)"
| "syncDatabaseWatchedThreads getGameDataFromURL threadDB (url # urlList) =
     (case syncThread getGameDataFromURL threadDB url of
        Inl e \<Rightarrow> (threadDB, Some e)
      | Inr threadDB' \<Rightarrow> syncDatabaseWatchedThreads getGameDataFromURL threadDB' urlList)"

text \<open>\<^verbatim>\<open>getUpdatedThreads\<close>.\<close>

fun getUpdatedThreads_loop ::
  "LibraryStore \<Rightarrow> ThreadRecord list \<Rightarrow> ThreadRecord list \<Rightarrow> ThreadRecord list" where
  "getUpdatedThreads_loop gameDB [] result = result"
| "getUpdatedThreads_loop gameDB (thread # threads) result =
     (let searchResult = GameDB_search gameDB (gameWithId (t_id thread))
      in getUpdatedThreads_loop gameDB threads
           (if length searchResult = 0 then result @ [thread] else result))"

definition getUpdatedThreads :: "ThreadStore \<Rightarrow> LibraryStore \<Rightarrow> ThreadRecord list" where
  "getUpdatedThreads threadDB gameDB =
     (let threads = ThreadDB_search threadDB updatedUnread ByNameAscending
      in getUpdatedThreads_loop gameDB threads [])"

section \<open>Recommendations\<close>

text \<open>
  \<^verbatim>\<open>mostFrequent(arr, n)\<close> counts in a plain object. Three properties of plain objects
  show in its result.
  \<^item> \<open>e in countDict\<close> also holds for the names inherited from \<open>Object.prototype\<close>. For such
    a name \<open>countDict[e] += 1\<close> adds one to a function, which gives a string that is not a
    number, and stores it as an own property; for \<open>__proto__\<close> the assignment is taken by
    the inherited setter, which ignores a string, so that no own property appears.
  \<^item> \<open>Object.keys\<close> lists the keys that are array indices (canonical decimal numerals below
    \<open>2^32 - 1\<close>) first, in ascending numeric order, and then the other keys in the order
    in which they were created.
  \<^item> \<open>Array.prototype.sort\<close> is stable, and a comparator result that is not a number counts
    as zero. With a consistent comparator the result of a stable sort is determined; it
    is \<open>arraySort\<close>, an insertion sort. (When a value is not a number the comparator is
    not consistent, and the language leaves the order to the engine.)
\<close>

datatype countValue = Count nat | NotANumber

definition inheritedNames :: "jsstring list" where
  "inheritedNames =
     map js [''constructor'', ''__defineGetter__'', ''__defineSetter__'', ''hasOwnProperty'',
             ''__lookupGetter__'', ''__lookupSetter__'', ''isPrototypeOf'',
             ''propertyIsEnumerable'', ''toString'', ''valueOf'', ''__proto__'',
             ''toLocaleString'']"

type_synonym countDict = "(jsstring \<times> countValue) list"

definition hasProperty :: "countDict \<Rightarrow> jsstring \<Rightarrow> bool" where
  "hasProperty countDict e \<longleftrightarrow> e \<in> set (map fst countDict) \<or> e \<in> set inheritedNames"

fun setProperty :: "countDict \<Rightarrow> jsstring \<Rightarrow> countValue \<Rightarrow> countDict" where
  "setProperty [] e v = [(e, v)]"
| "setProperty ((k, w) # rest) e v =
     (if k = e then (k, v) # rest else (k, w) # setProperty rest e v)"

fun plusOne :: "countValue \<Rightarrow> countValue" where
  "plusOne (Count c) = Count (c + 1)"
| "plusOne NotANumber = NotANumber"

definition countOccurrence :: "countDict \<Rightarrow> jsstring \<Rightarrow> countDict" where
  "countOccurrence countDict e =
     (if hasProperty countDict e then
        (case map_of countDict e of
           Some v \<Rightarrow> setProperty countDict e (plusOne v)
         | None \<Rightarrow> if e = js ''__proto__'' then countDict
                   else setProperty countDict e NotANumber)
      else setProperty countDict e (Count 1))"

definition isArrayIndex :: "jsstring \<Rightarrow> bool" where
  "isArrayIndex k \<longleftrightarrow>
     k \<noteq> [] \<and> list_all isDigit k \<and> (k = js ''0'' \<or> hd k \<noteq> 0x30) \<and> decimalValue k < 2 ^ 32 - 1"

definition objectEntries :: "countDict \<Rightarrow> (jsstring \<times> countValue) list" where
  "objectEntries countDict =
     sort_key (\<lambda>item. decimalValue (fst item)) (filter (\<lambda>item. isArrayIndex (fst item)) countDict)
     @ filter (\<lambda>item. \<not> isArrayIndex (fst item)) countDict"

definition compareItems :: "jsstring \<times> countValue \<Rightarrow> jsstring \<times> countValue \<Rightarrow> int" where
  "compareItems first second =
     (case (snd second, snd first) of
        (Count b, Count a) \<Rightarrow> int b - int a
      | _ \<Rightarrow> 0)"

fun insertSorted :: "('a \<Rightarrow> 'a \<Rightarrow> int) \<Rightarrow> 'a \<Rightarrow> 'a list \<Rightarrow> 'a list" where
  "insertSorted cmp x [] = [x]"
| "insertSorted cmp x (y # ys) =
     (if cmp x y \<le> 0 then x # y # ys else y # insertSorted cmp x ys)"

definition arraySort :: "('a \<Rightarrow> 'a \<Rightarrow> int) \<Rightarrow> 'a list \<Rightarrow> 'a list" where
  "arraySort cmp xs = foldr (insertSorted cmp) xs []"

text \<open>\<^verbatim>\<open>xs.slice(0, end)\<close>: a negative \<open>end\<close> counts from the end of the array.\<close>

definition slice0 :: "'a list \<Rightarrow> int \<Rightarrow> 'a list" where
  "slice0 xs end =
     take (nat (if end < 0 then max (int (length xs) + end) 0 else min end (int (length xs)))) xs"

definition mostFrequent :: "jsstring list \<Rightarrow> int \<Rightarrow> jsstring list" where
  "mostFrequent arr n =
     (let countDict = foldl countOccurrence [] arr;
          items = arraySort compareItems (objectEntries countDict);
          m = min n (int (length items));
          returnElements = slice0 items m
      in map fst returnElements)"

text \<open>
  The ranking as the specification words it: the distinct values in the order of their
  first occurrence, sorted by descending count with a stable sort, cut to the first
  \<open>min(n, distinctCount)\<close>.
\<close>

definition firstOccurrences :: "'a list \<Rightarrow> 'a list" where
  "firstOccurrences xs = rev (remdups (rev xs))"

definition topN :: "'a list \<Rightarrow> int \<Rightarrow> 'a list" where
  "topN xs n =
     (let distinctValues = firstOccurrences xs
      in take (nat (min n (int (length distinctValues))))
           (sort_key (\<lambda>v. - int (count_list xs v)) distinctValues))"

text \<open>
  The inputs on which \<open>mostFrequent\<close> behaves as a dictionary keyed by the items: no item
  is an array index or a name inherited from \<open>Object.prototype\<close>. \<open>counted\<close> is the entry
  of the dictionary for a key.
\<close>

definition plainItems :: "jsstring list \<Rightarrow> bool" where
  "plainItems arr \<longleftrightarrow> list_all (\<lambda>e. \<not> isArrayIndex e \<and> e \<notin> set inheritedNames) arr"

definition counted :: "jsstring list \<Rightarrow> jsstring \<Rightarrow> jsstring \<times> countValue" where
  "counted arr = (\<lambda>k. (k, Count (count_list arr k)))"

text \<open>\<^verbatim>\<open>getMostFrequentsInstalledTags\<close> and \<^verbatim>\<open>getMostFrequentsThreadTags\<close>.\<close>

definition getMostFrequentsInstalledTags :: "LibraryStore \<Rightarrow> int \<Rightarrow> jsstring list" where
  "getMostFrequentsInstalledTags gameDB n =
     (let games = GameDB_search gameDB allGames;
          tags = foldl (\<lambda>tags game. tags @ g_tags game) [] games
      in mostFrequent tags n)"

definition getMostFrequentsThreadTags :: "ThreadStore \<Rightarrow> int \<Rightarrow> jsstring list" where
  "getMostFrequentsThreadTags threadDB n =
     (let threads = ThreadDB_search threadDB allThreads Unsorted;
          tags = foldl (\<lambda>tags thread. tags @ t_tags thread) [] threads
      in mostFrequent tags n)"

definition MAX_TAGS :: int where
  "MAX_TAGS = 5"

definition MAX_GAMES :: nat where
  "MAX_GAMES = 10"

definition MAX_FETCHED_GAMES :: nat where
  "MAX_FETCHED_GAMES = 15"

text \<open>The body of the inner \<open>for\<close> loop of \<^verbatim>\<open>recommendGames\<close>.\<close>

definition addValidGame :: "int list \<Rightarrow> GameInfo list \<Rightarrow> GameInfo \<Rightarrow> GameInfo list" where
  "addValidGame installedGameIDs validGames game =
     (if gi_id game \<notin> set installedGameIDs
         \<and> find (\<lambda>g. gi_id g = gi_id game) validGames = None
         \<and> length validGames < MAX_GAMES
      then validGames @ [game] else validGames)"

text \<open>What the inner loop of \<open>recommendGames\<close> keeps true of \<open>validGames\<close>.\<close>

definition validInvariant :: "int list \<Rightarrow> GameInfo list \<Rightarrow> bool" where
  "validInvariant installedGameIDs validGames \<longleftrightarrow>
     length validGames \<le> MAX_GAMES \<and> distinct (map gi_id validGames)
     \<and> set (map gi_id validGames) \<inter> set installedGameIDs = {}"

text \<open>
  One turn of the \<open>do ... while\<close> loop: the catalogue query, the inner loop, and
  \<open>tags.pop()\<close>, which removes the last tag and does nothing to an empty array.
  \<open>getLatestUpdates\<close> is the catalogue query by tags and limit (the sorting is always by
  rating); it returns or throws. The turn gives the new \<open>validGames\<close> and the new \<open>tags\<close>.
\<close>

definition recommendGames_turn ::
  "(jsstring list \<Rightarrow> nat \<Rightarrow> error + GameInfo list) \<Rightarrow> int list \<Rightarrow> jsstring list \<Rightarrow> GameInfo list
     \<Rightarrow> error + (GameInfo list \<times> jsstring list)" where
  "recommendGames_turn getLatestUpdates installedGameIDs tags validGames =
     (case getLatestUpdates tags MAX_FETCHED_GAMES of
        Inl e \<Rightarrow> Inl e
      | Inr games \<Rightarrow>
          Inr (foldl (addValidGame installedGameIDs) validGames games, butlast tags))"

text \<open>
  The loop: a turn, then the test \<open>validGames.length < MAX_GAMES && tags.length > 0\<close>.
  Beside the result the function gives the tag lists it has queried with, one for each
  turn.
\<close>

function recommendGames_loop ::
  "(jsstring list \<Rightarrow> nat \<Rightarrow> error + GameInfo list) \<Rightarrow> int list \<Rightarrow> jsstring list \<Rightarrow> GameInfo list
     \<Rightarrow> jsstring list list \<Rightarrow> jsstring list list \<times> (error + GameInfo list)" where
  "recommendGames_loop getLatestUpdates installedGameIDs tags validGames queried =
     (case recommendGames_turn getLatestUpdates installedGameIDs tags validGames of
        Inl e \<Rightarrow> (queried @ [tags], Inl e)
      | Inr (validGames', tags') \<Rightarrow>
          if length validGames' < MAX_GAMES \<and> length tags' > 0
          then recommendGames_loop getLatestUpdates installedGameIDs tags' validGames'
                 (queried @ [tags])
          else (queried @ [tags], Inr validGames'))"
  by pat_completeness auto
termination
proof (relation "measure (\<lambda>(getLatestUpdates, installedGameIDs, tags, validGames, queried).
        length tags)", goal_cases)
  case 1
  show ?case by simp
next
  case (2 getLatestUpdates installedGameIDs tags validGames queried turn validGames' tags')
  then have "tags' = butlast tags" and "tags' \<noteq> []"
    by (auto simp: recommendGames_turn_def split: sum.splits)
  then have "length tags' < length tags" by (cases tags) auto
  then show ?case by simp
qed

declare recommendGames_loop.simps [simp del]

definition recommendGames ::
  "(jsstring list \<Rightarrow> nat \<Rightarrow> error + GameInfo list) \<Rightarrow> LibraryStore \<Rightarrow> ThreadStore
     \<Rightarrow> jsstring list list \<times> (error + GameRecord list)" where
  "recommendGames getLatestUpdates gameDB threadDB =
     (let gameTags = getMostFrequentsInstalledTags gameDB MAX_TAGS;
          threadTags = getMostFrequentsThreadTags threadDB MAX_TAGS;
          unified = gameTags @ threadTags;
          tags = mostFrequent unified MAX_TAGS;
          installedGames = GameDB_search gameDB allGames;
          installedGameIDs = map g_id installedGames;
          (queried, outcome) =
            recommendGames_loop getLatestUpdates installedGameIDs tags [] []
      in (queried,
          case outcome of
            Inl e \<Rightarrow> Inl e
          | Inr validGames \<Rightarrow> Inr (map GIE_convert validGames)))"

text \<open>The value of \<open>tags\<close> when the loop is entered.\<close>

definition workingTags :: "LibraryStore \<Rightarrow> ThreadStore \<Rightarrow> jsstring list" where
  "workingTags gameDB threadDB =
     mostFrequent
       (getMostFrequentsInstalledTags gameDB MAX_TAGS @ getMostFrequentsThreadTags threadDB MAX_TAGS)
       MAX_TAGS"

section \<open>Inputs of the examples\<close>

text \<open>
  Modelled from the spec: \<open>window.API.getDirName\<close> is not among the sources; the spec has
  it derive the base name of a directory path. The examples take the part after the last
  slash.
\<close>

definition baseName :: "jsstring \<Rightarrow> jsstring" where
  "baseName path = rev (takeWhile (\<lambda>c. c \<noteq> 0x2F) (rev path))"

definition installedGame :: "int \<Rightarrow> jsstring \<Rightarrow> GameRecord" where
  "installedGame i name =
     \<lparr>g_id = i, g_name = name, g_version = js ''Unknown'', g_tags = [], g_author = [],
      g_gameDirectory = None, g_savePaths = []\<rparr>"

definition watchedThread :: "int \<Rightarrow> jsstring \<Rightarrow> jsstring \<Rightarrow> bool \<Rightarrow> bool \<Rightarrow> ThreadRecord" where
  "watchedThread i url name updated read =
     \<lparr>t_id = i, t_url = url, t_name = name, t_tags = [], t_updateAvailable = updated,
      t_markedAsRead = read\<rparr>"

definition catalogEntry :: "int \<Rightarrow> jsstring \<Rightarrow> jsstring \<Rightarrow> GameInfo" where
  "catalogEntry i url name =
     \<lparr>gi_id = i, gi_name = name, gi_url = url, gi_author = js ''author'',
      gi_version = js ''1.0'', gi_tags = []\<rparr>"

definition brokenUrl :: jsstring where
  "brokenUrl = js ''https://site.example/threads/broken-game.777/''"

definition coolUrl :: jsstring where
  "coolUrl = js ''https://site.example/threads/cool-game.12345/''"

definition exampleCatalog :: "jsstring \<Rightarrow> error + GameInfo" where
  "exampleCatalog url =
     (if url = brokenUrl then Inl RemoteLookupFailed
      else Inr (catalogEntry 12345 url (js ''Cool Game'')))"






text \<open>A catalogue without results, and one that answers every query with the same games.\<close>

definition noResults :: "jsstring list \<Rightarrow> nat \<Rightarrow> error + GameInfo list" where
  "noResults tags limit = Inr []"

definition sameResults :: "jsstring list \<Rightarrow> nat \<Rightarrow> error + GameInfo list" where
  "sameResults tags limit =
     Inr (map (\<lambda>i. catalogEntry i coolUrl (js ''Cool Game'')) [1, 2, 3, 2, 4])"

definition taggedGame :: "int \<Rightarrow> string list \<Rightarrow> GameRecord" where
  "taggedGame i tags = (installedGame i (js ''Installed''))\<lparr>g_tags := map js tags\<rparr>"

section \<open>Properties of the string functions\<close>

lemma trim_single: "trim [c] = [] \<longleftrightarrow> isWhiteSpace c"
  by (simp add: trim_def)

lemma set_trim: "set (trim s) \<subseteq> set s"
proof
  fix x assume "x \<in> set (trim s)"
  then have "x \<in> set (dropWhile isWhiteSpace (rev (dropWhile isWhiteSpace s)))"
    by (simp add: trim_def)
  then have "x \<in> set (rev (dropWhile isWhiteSpace s))" by (rule set_dropWhileD)
  then have "x \<in> set (dropWhile isWhiteSpace s)" by simp
  then show "x \<in> set s" by (rule set_dropWhileD)
qed

lemma last_dropWhile_ne: "dropWhile P xs \<noteq> [] \<Longrightarrow> last (dropWhile P xs) = last xs"
proof -
  assume ne: "dropWhile P xs \<noteq> []"
  have "last xs = last (takeWhile P xs @ dropWhile P xs)" by simp
  also have "\<dots> = last (dropWhile P xs)" using ne by (simp only: last_append if_False)
  finally show ?thesis by simp
qed

lemma trim_fixed:
  assumes "s = [] \<or> (\<not> isWhiteSpace (hd s) \<and> \<not> isWhiteSpace (last s))"
  shows "trim s = s"
proof (cases "s = []")
  case True
  then show ?thesis by (simp add: trim_def)
next
  case False
  with assms have h: "\<not> isWhiteSpace (hd s)" and l: "\<not> isWhiteSpace (last s)" by auto
  have 1: "dropWhile isWhiteSpace s = s" using h by (simp add: dropWhile_eq_self_iff)
  have "hd (rev s) = last s" using False by (simp add: hd_rev)
  then have 2: "dropWhile isWhiteSpace (rev s) = rev s"
    using l by (simp add: dropWhile_eq_self_iff)
  show ?thesis by (simp add: trim_def 1 2)
qed

lemma trim_ends:
  "trim s = [] \<or> (\<not> isWhiteSpace (hd (trim s)) \<and> \<not> isWhiteSpace (last (trim s)))"
proof (cases "trim s = []")
  case True
  then show ?thesis by simp
next
  case False
  define d where "d = dropWhile isWhiteSpace s"
  define e where "e = dropWhile isWhiteSpace (rev d)"
  have t: "trim s = rev e" by (simp add: trim_def d_def e_def)
  with False have ene: "e \<noteq> []" by simp
  then have dne: "d \<noteq> []" by (auto simp: e_def)
  have "\<not> isWhiteSpace (hd e)" using ene unfolding e_def by (rule hd_dropWhile)
  then have l: "\<not> isWhiteSpace (last (trim s))" using ene by (simp add: t last_rev)
  have "last e = last (rev d)" using ene unfolding e_def by (rule last_dropWhile_ne)
  also have "\<dots> = hd d" using dne by (simp add: last_rev)
  finally have "last e = hd d" .
  moreover have "\<not> isWhiteSpace (hd d)" using dne unfolding d_def by (rule hd_dropWhile)
  ultimately have "\<not> isWhiteSpace (hd (trim s))" using ene by (simp add: t hd_rev)
  with l show ?thesis by simp
qed

lemma trim_trim: "trim (trim s) = trim s"
  by (rule trim_fixed) (rule trim_ends)

lemma filter_trim_id:
  assumes "\<forall>c \<in> set s. P c"
  shows "filter P (trim s) = trim s"
proof -
  from assms set_trim [of s] have "\<forall>c \<in> set (trim s). P c" by auto
  then show ?thesis by (simp add: filter_id_conv)
qed

text \<open>The loop of \<open>removeSpecials\<close> when both conversions work code unit by code unit.\<close>

lemma removeSpecials_loop_unit:
  "i \<le> length str \<Longrightarrow>
   removeSpecials_loop (map lc str) (map uc str) str allowedChars i res =
   res @ filter (keeps lc uc allowedChars) (drop i str)"
proof (induction "length str - i" arbitrary: i res)
  case 0
  then show ?case by (simp add: removeSpecials_loop.simps)
next
  case (Suc n)
  then have lt: "i < length str" by simp
  then have d: "drop i str = str ! i # drop (Suc i) str" by (simp add: Cons_nth_drop_Suc)
  from Suc lt have IH:
    "\<And>res. removeSpecials_loop (map lc str) (map uc str) str allowedChars (Suc i) res =
       res @ filter (keeps lc uc allowedChars) (drop (Suc i) str)"
    by simp
  show ?case
    using lt
    by (subst removeSpecials_loop.simps)
       (simp add: IH d charAt_def trim_single appendIndexed_def keeps_def)
qed

lemma removeSpecials_unit:
  "removeSpecials (map lc) (map uc) str (Some allowedChars) =
     trim (filter (keeps lc uc allowedChars) str)"
  by (simp add: removeSpecials_def removeSpecials_loop_unit)

text \<open>
  Claim C1, as amended. Where the case conversions work code unit by code unit,
  \<open>removeSpecials\<close> keeps a code unit exactly when its lower-case and upper-case forms
  differ (a cased letter), or it is white space, or its lower-case form is in the
  allow-list; it drops every other one, and trims the result. So the output holds no
  caseless character that is neither white space nor allowed.
\<close>

theorem removeSpecials_keeps_cased:
  "removeSpecials (map lc) (map uc) str (Some allowedChars) =
     trim (filter (keeps lc uc allowedChars) str)
   \<and> (\<forall>c \<in> set (removeSpecials (map lc) (map uc) str (Some allowedChars)).
         keeps lc uc allowedChars c)"
proof -
  have eq: "removeSpecials (map lc) (map uc) str (Some allowedChars) =
     trim (filter (keeps lc uc allowedChars) str)"
    by (rule removeSpecials_unit)
  have "set (trim (filter (keeps lc uc allowedChars) str))
          \<subseteq> set (filter (keeps lc uc allowedChars) str)"
    by (rule set_trim)
  then have "\<forall>c \<in> set (trim (filter (keeps lc uc allowedChars) str)).
      keeps lc uc allowedChars c"
    by auto
  with eq show ?thesis by simp
qed

theorem removeSpecials_keeps_cased_witness:
  "removeSpecials (map asciiLower) (map asciiUpper) (js '' a1-B! '') (Some [js ''-''])
     = js ''a-B''
   \<and> keeps asciiLower asciiUpper [js ''-''] 0x42"
proof -
  let ?r = "removeSpecials (map asciiLower) (map asciiUpper) (js '' a1-B! '') (Some [js ''-''])"
  note inst = removeSpecials_keeps_cased [of asciiLower asciiUpper "js '' a1-B! ''" "[js ''-'']"]
  have "?r = trim (filter (keeps asciiLower asciiUpper [js ''-'']) (js '' a1-B! ''))"
    using inst by (rule conjunct1)
  also have "\<dots> = js ''a-B''" by code_simp
  finally have r: "?r = js ''a-B''" .
  have "0x42 \<in> set (js ''a-B'')" by (simp add: js_def)
  with r have "0x42 \<in> set ?r" by simp
  with inst have "keeps asciiLower asciiUpper [js ''-''] 0x42" by blast
  with r show ?thesis by simp
qed

text \<open>
  Claim C1 as it is stated fails: on \<open>"a1"\<close> with an empty allow-list the code keeps the
  letter and drops the digit, where the stated rule keeps the digit and drops the letter.
\<close>

theorem removeSpecials_drops_digit_counterexample:
  "removeSpecials (map asciiLower) (map asciiUpper) (js ''a1'') (Some []) = js ''a''
   \<and> normalize_spec asciiLower asciiUpper (js ''a1'') [] = js ''1''"
  by code_simp

text \<open>
  Claim C8: normalising a normalised string gives the same string, for every string. The
  code breaks it on the string that holds U+0130 alone. Its lower-case form has two code
  units and the string itself has one, so the loop also runs for \<open>i = 1\<close>, reads \<open>str[1]\<close>,
  which is \<open>undefined\<close>, and appends the text \<open>undefined\<close>; the second application appends
  it once more.
\<close>

theorem removeSpecials_not_idempotent:
  "removeSpecials toLowerCase toUpperCase [0x130] None = 0x130 # js ''undefined''
   \<and> removeSpecials toLowerCase toUpperCase
        (removeSpecials toLowerCase toUpperCase [0x130] None) None
      = 0x130 # js ''undefinedundefined''"
  by code_simp

text \<open>Where the case conversions work code unit by code unit, the normaliser is idempotent.\<close>

lemma removeSpecials_unit_idempotent:
  "removeSpecials (map lc) (map uc)
     (removeSpecials (map lc) (map uc) str (Some allowedChars)) (Some allowedChars)
   = removeSpecials (map lc) (map uc) str (Some allowedChars)"
proof -
  let ?r = "filter (keeps lc uc allowedChars) str"
  have "filter (keeps lc uc allowedChars) (trim ?r) = trim ?r"
    by (rule filter_trim_id) simp
  then show ?thesis by (simp add: removeSpecials_unit trim_trim)
qed

section \<open>Properties of the duplicate check\<close>

lemma cleanGameName_not_reserved: "\<forall>c \<in> set (cleanGameName lc uc name). \<not> isReserved c"
proof -
  have "set (cleanGameName lc uc name)
          \<subseteq> set (removeReserved (replaceTags (removeSpecials lc uc name (Some cleanGameName_allowed))))"
    unfolding cleanGameName_def by (rule set_trim)
  then show ?thesis by (auto simp: removeReserved_def)
qed

lemma blankReserved_id: "\<forall>c \<in> set s. \<not> isReserved c \<Longrightarrow> blankReserved s = s"
  by (simp add: blankReserved_def map_idI)

lemma removeReserved_id: "\<forall>c \<in> set s. \<not> isReserved c \<Longrightarrow> removeReserved s = s"
  by (simp add: removeReserved_def filter_id_conv)

lemma trim_cleanGameName: "trim (cleanGameName lc uc name) = cleanGameName lc uc name"
  by (simp add: cleanGameName_def trim_trim)

lemma listed_key:
  "uc (trim (blankReserved (cleanGameName lc uc name))) = installedKey lc uc name"
  by (simp add: installedKey_def blankReserved_id removeReserved_id cleanGameName_not_reserved
      trim_cleanGameName)

lemma unlisted_loop_filter:
  "fst (unlisted_loop lc uc getDirName listed paths (kept, present)) =
     kept @ filter (\<lambda>path. installedKey lc uc (getDirName path) \<notin> set listed) paths"
  by (induction paths arbitrary: kept present) (simp_all add: Let_def listed_key)

text \<open>
  Claim C7. \<open>getUnlistedGamesInArrayOfPath\<close> returns, in input order, the paths whose key
  (\<open>cleanGameName\<close> of the directory's base name, reserved characters stripped again,
  upper-cased) is different from the key of every installed record, so that a path is
  excluded exactly when its key equals the key of some installed record. With the
  installed name \<open>Title: Part 2\<close> the directory \<open>Title: Part 2 [v.2]\<close> is excluded.
\<close>

theorem getUnlistedGamesInArrayOfPath_filters:
  "snd (getUnlistedGamesInArrayOfPath lc uc getDirName gameDB paths) =
     filter (\<lambda>path. installedKey lc uc (getDirName path)
                      \<notin> set (map (\<lambda>game. installedKey lc uc (g_name game)) gameDB)) paths
   \<and> getUnlistedGamesInArrayOfPath (map asciiLower) (map asciiUpper) baseName
        [installedGame 1 (js ''Title: Part 2'')] [js ''/games/Title: Part 2 [v.2]'']
      = ([GameAlreadyListed (js ''Title Part 2'')], [])"
proof
  have all: "GameDB_search gameDB allGames = gameDB"
    by (simp add: GameDB_search_def allGames_def agrees_def)
  have "snd (getUnlistedGamesInArrayOfPath lc uc getDirName gameDB paths) =
     fst (unlisted_loop lc uc getDirName (map (\<lambda>game. installedKey lc uc (g_name game)) gameDB) paths ([], []))"
    by (simp add: getUnlistedGamesInArrayOfPath_def all listed_key Let_def split: prod.splits)
  then show "snd (getUnlistedGamesInArrayOfPath lc uc getDirName gameDB paths) =
     filter (\<lambda>path. installedKey lc uc (getDirName path)
                      \<notin> set (map (\<lambda>game. installedKey lc uc (g_name game)) gameDB)) paths"
    by (simp only: unlisted_loop_filter append_Nil)
  show "getUnlistedGamesInArrayOfPath (map asciiLower) (map asciiUpper) baseName
        [installedGame 1 (js ''Title: Part 2'')] [js ''/games/Title: Part 2 [v.2]'']
      = ([GameAlreadyListed (js ''Title Part 2'')], [])"
    by code_simp
qed

theorem getUnlistedGamesInArrayOfPath_filters_witness:
  "snd (getUnlistedGamesInArrayOfPath (map asciiLower) (map asciiUpper) baseName
        [installedGame 1 (js ''Title: Part 2'')]
        [js ''/games/New Game [v.1]'', js ''/games/Title: Part 2 [v.2]'', js ''/games/Other''])
      = [js ''/games/New Game [v.1]'', js ''/games/Other'']"
proof -
  have "snd (getUnlistedGamesInArrayOfPath (map asciiLower) (map asciiUpper) baseName
        [installedGame 1 (js ''Title: Part 2'')]
        [js ''/games/New Game [v.1]'', js ''/games/Title: Part 2 [v.2]'', js ''/games/Other'']) =
     filter (\<lambda>path. installedKey (map asciiLower) (map asciiUpper) (baseName path)
                      \<notin> set (map (\<lambda>game. installedKey (map asciiLower) (map asciiUpper) (g_name game)) [installedGame 1 (js ''Title: Part 2'')]))
       [js ''/games/New Game [v.1]'', js ''/games/Title: Part 2 [v.2]'', js ''/games/Other'']"
    using getUnlistedGamesInArrayOfPath_filters [of "map asciiLower" "map asciiUpper" baseName
        "[installedGame 1 (js ''Title: Part 2'')]"
        "[js ''/games/New Game [v.1]'', js ''/games/Title: Part 2 [v.2]'', js ''/games/Other'']"]
    by (rule conjunct1)
  also have "\<dots> = [js ''/games/New Game [v.1]'', js ''/games/Other'']" by code_simp
  finally show ?thesis .
qed

section \<open>Properties of the watched threads\<close>

lemma GameDB_search_id:
  "GameDB_search gameDB (gameWithId i) = filter (\<lambda>g. g_id g = i) gameDB"
  by (simp add: GameDB_search_def gameWithId_def agrees_def)

lemma GameDB_search_all: "GameDB_search gameDB allGames = gameDB"
  by (simp add: GameDB_search_def allGames_def agrees_def)


lemma ThreadDB_search_all: "ThreadDB_search threadDB allThreads Unsorted = threadDB"
  by (simp add: ThreadDB_search_def allThreads_def agrees_def)

lemma ThreadDB_search_updatedUnread:
  "ThreadDB_search threadDB updatedUnread ByNameAscending =
     sort_key t_name (filter (\<lambda>t. t_updateAvailable t \<and> \<not> t_markedAsRead t) threadDB)"
  by (simp add: ThreadDB_search_def updatedUnread_def agrees_def)

lemma getUpdatedThreads_loop_filter:
  "getUpdatedThreads_loop gameDB threads result =
     result @ filter (\<lambda>t. t_id t \<notin> set (map g_id gameDB)) threads"
proof (induction threads arbitrary: result)
  case Nil
  then show ?case by simp
next
  case (Cons thread threads)
  have "(filter (\<lambda>g. g_id g = t_id thread) gameDB = []) = (t_id thread \<notin> set (map g_id gameDB))"
    by (force simp: filter_empty_conv)
  then show ?case by (simp add: Cons.IH GameDB_search_id Let_def)
qed

text \<open>
  Claim C6. \<open>getUpdatedThreads\<close> returns exactly the thread records with
  \<open>updateAvailable\<close> true and \<open>markedAsRead\<close> false whose id is not the id of a record of
  the library store, in the order of the query sorted by name; no record it returns has
  the id of a record of the library store.
\<close>

theorem getUpdatedThreads_feed:
  "getUpdatedThreads threadDB gameDB =
     filter (\<lambda>t. t_id t \<notin> set (map g_id gameDB))
       (sort_key t_name (filter (\<lambda>t. t_updateAvailable t \<and> \<not> t_markedAsRead t) threadDB))
   \<and> (\<forall>t \<in> set (getUpdatedThreads threadDB gameDB). t_id t \<notin> set (map g_id gameDB))"
proof -
  have "getUpdatedThreads threadDB gameDB =
     filter (\<lambda>t. t_id t \<notin> set (map g_id gameDB))
       (sort_key t_name (filter (\<lambda>t. t_updateAvailable t \<and> \<not> t_markedAsRead t) threadDB))"
    by (simp add: getUpdatedThreads_def ThreadDB_search_updatedUnread getUpdatedThreads_loop_filter)
  then show ?thesis by simp
qed

theorem getUpdatedThreads_feed_witness:
  "getUpdatedThreads
     [watchedThread 3 (js ''u3'') (js ''Zeta'') True False,
      watchedThread 1 (js ''u1'') (js ''Beta'') True False,
      watchedThread 4 (js ''u4'') (js ''Gamma'') True True,
      watchedThread 2 (js ''u2'') (js ''Alpha'') True False,
      watchedThread 5 (js ''u5'') (js ''Delta'') False False]
     [installedGame 1 (js ''Beta'')]
   = [watchedThread 2 (js ''u2'') (js ''Alpha'') True False,
      watchedThread 3 (js ''u3'') (js ''Zeta'') True False]
   \<and> t_id (watchedThread 2 (js ''u2'') (js ''Alpha'') True False)
       \<notin> set (map g_id [installedGame 1 (js ''Beta'')])"
proof -
  let ?threads = "[watchedThread 3 (js ''u3'') (js ''Zeta'') True False,
      watchedThread 1 (js ''u1'') (js ''Beta'') True False,
      watchedThread 4 (js ''u4'') (js ''Gamma'') True True,
      watchedThread 2 (js ''u2'') (js ''Alpha'') True False,
      watchedThread 5 (js ''u5'') (js ''Delta'') False False]"
  let ?games = "[installedGame 1 (js ''Beta'')]"
  let ?alpha = "watchedThread 2 (js ''u2'') (js ''Alpha'') True False"
  note inst = getUpdatedThreads_feed [of ?threads ?games]
  have "getUpdatedThreads ?threads ?games =
     filter (\<lambda>t. t_id t \<notin> set (map g_id ?games))
       (sort_key t_name (filter (\<lambda>t. t_updateAvailable t \<and> \<not> t_markedAsRead t) ?threads))"
    using inst by (rule conjunct1)
  also have "\<dots> = [?alpha, watchedThread 3 (js ''u3'') (js ''Zeta'') True False]"
    by (simp add: watchedThread_def installedGame_def js_def)
  finally have r: "getUpdatedThreads ?threads ?games =
      [?alpha, watchedThread 3 (js ''u3'') (js ''Zeta'') True False]" .
  then have "?alpha \<in> set (getUpdatedThreads ?threads ?games)" by simp
  with inst have "t_id ?alpha \<notin> set (map g_id ?games)" by blast
  with r show ?thesis by simp
qed











text \<open>An error thrown in one turn ends the whole call.\<close>

lemma syncDatabaseWatchedThreads_throws:
  "syncThread getGameDataFromURL threadDB url = Inl e \<Longrightarrow>
   syncDatabaseWatchedThreads getGameDataFromURL threadDB (url # urlList) = (threadDB, Some e)"
  by simp

text \<open>
  Claim C2: a failure while one URL is processed does not keep the later URLs of the
  batch from being processed. The code breaks it: the catalogue fails on the first URL of
  a batch of two, the call ends with the error, and the second URL, which is inserted
  when it is synchronised alone, is never processed.
\<close>

theorem syncDatabaseWatchedThreads_aborts:
  "syncDatabaseWatchedThreads exampleCatalog [] [brokenUrl, coolUrl] = ([], Some RemoteLookupFailed)
   \<and> syncDatabaseWatchedThreads exampleCatalog [] [coolUrl]
       = ([watchedThread 12345 coolUrl (js ''Cool Game'') False False], None)"
  by code_simp

section \<open>Properties of adding a game by URL\<close>

lemma lenght_undefined: "strictNotEqual (arrayProperty entry (js ''lenght'')) 0"
  by (simp add: strictNotEqual_def arrayProperty_def js_def)

text \<open>
  Claim C10. Whatever the library store holds and whatever the catalogue answers,
  \<open>onAddRemoteGame\<close> leaves the library store as it was; and whenever the duplicate check
  is reached (a directory is left after the selection, a URL was entered and the
  catalogue answered), the branch for a game that is already listed is taken.
\<close>

theorem onAddRemoteGame_never_inserts:
  "fst (onAddRemoteGame lc uc getDirName getGameDataFromURL gameDB filePaths urlInput) = gameDB
   \<and> (selectGameDirectories lc uc getDirName gameDB filePaths = (shown, gamePath # others)
        \<and> urlInput = Some url \<and> url \<noteq> [] \<and> getGameDataFromURL url = Inr info \<longrightarrow>
      onAddRemoteGame lc uc getDirName getGameDataFromURL gameDB filePaths urlInput
        = (gameDB, shown @ [AddingGameFromUrl, GameAlreadyListed (gi_name info)], None))"
  by (simp add: onAddRemoteGame_def lenght_undefined Let_def
           split: prod.splits list.splits option.splits sum.splits)

theorem onAddRemoteGame_never_inserts_witness:
  "onAddRemoteGame (map asciiLower) (map asciiUpper) baseName exampleCatalog []
     [js ''/games/Cool Game [v.0.3]''] (Some coolUrl)
   = ([], [AddingGameFromUrl, GameAlreadyListed (js ''Cool Game'')], None)"
proof -
  have sel: "selectGameDirectories (map asciiLower) (map asciiUpper) baseName []
               [js ''/games/Cool Game [v.0.3]''] = ([], js ''/games/Cool Game [v.0.3]'' # [])"
    by code_simp
  have cat: "exampleCatalog coolUrl = Inr (catalogEntry 12345 coolUrl (js ''Cool Game''))"
    by code_simp
  have ne: "coolUrl \<noteq> []" by code_simp
  have "onAddRemoteGame (map asciiLower) (map asciiUpper) baseName exampleCatalog []
     [js ''/games/Cool Game [v.0.3]''] (Some coolUrl)
   = ([], [] @ [AddingGameFromUrl,
         GameAlreadyListed (gi_name (catalogEntry 12345 coolUrl (js ''Cool Game'')))], None)"
    using onAddRemoteGame_never_inserts [of "map asciiLower" "map asciiUpper" baseName
       exampleCatalog "[]" "[js ''/games/Cool Game [v.0.3]'']" "Some coolUrl" "[]"
       "js ''/games/Cool Game [v.0.3]''" "[]" coolUrl "catalogEntry 12345 coolUrl (js ''Cool Game'')"]
       sel cat ne by blast
  then show ?thesis by (simp add: catalogEntry_def)
qed

section \<open>Properties of the frequency ranking\<close>

lemma fst_counted: "fst (counted arr k) = k"
  by (simp add: counted_def)

lemma firstOccurrences_snoc:
  "firstOccurrences (xs @ [x]) = (if x \<in> set xs then firstOccurrences xs else firstOccurrences xs @ [x])"
  by (simp add: firstOccurrences_def)

lemma set_firstOccurrences: "set (firstOccurrences xs) = set xs"
  by (simp add: firstOccurrences_def)

lemma distinct_firstOccurrences: "distinct (firstOccurrences xs)"
  by (simp add: firstOccurrences_def)

lemma setProperty_new:
  "e \<notin> set (map fst d) \<Longrightarrow> setProperty d e v = d @ [(e, v)]"
  by (induction d e v rule: setProperty.induct) auto

lemma setProperty_old:
  "distinct ks \<Longrightarrow> e \<in> set ks \<Longrightarrow>
   setProperty (map (\<lambda>k. (k, g k)) ks) e v = map (\<lambda>k. (k, if k = e then v else g k)) ks"
proof (induction ks)
  case Nil
  then show ?case by simp
next
  case (Cons k ks)
  show ?case
  proof (cases "k = e")
    case True
    with Cons.prems have "e \<notin> set ks" by simp
    then have "map (\<lambda>k. (k, if k = e then v else g k)) ks = map (\<lambda>k. (k, g k)) ks"
      by (intro map_cong) auto
    with True show ?thesis by simp
  next
    case False
    with Cons show ?thesis by simp
  qed
qed

lemma map_of_counted:
  "k \<in> set ks \<Longrightarrow> map_of (map (counted arr) ks) k = Some (Count (count_list arr k))"
  by (induction ks) (auto simp: counted_def)

lemma countDict_plain:
  "plainItems arr \<Longrightarrow>
   foldl countOccurrence [] arr = map (counted arr) (firstOccurrences arr)"
proof (induction arr rule: rev_induct)
  case Nil
  then show ?case by (simp add: firstOccurrences_def)
next
  case (snoc x xs)
  then have plain: "plainItems xs" and x: "x \<notin> set inheritedNames"
    by (simp_all add: plainItems_def)
  let ?d = "map (counted xs) (firstOccurrences xs)"
  have "foldl countOccurrence [] xs = ?d" using snoc.IH plain by simp
  then have d: "foldl countOccurrence [] (xs @ [x]) = countOccurrence ?d x" by simp
  have keys: "map fst ?d = firstOccurrences xs" by (simp add: comp_def fst_counted)
  have keyset: "set (map fst ?d) = set xs" by (simp only: keys set_firstOccurrences)
  show ?case
  proof (cases "x \<in> set xs")
    case True
    then have has: "hasProperty ?d x" unfolding hasProperty_def keyset by simp
    have look: "map_of ?d x = Some (Count (count_list xs x))"
      using True by (simp add: map_of_counted set_firstOccurrences)
    have "setProperty ?d x (Count (count_list xs x + 1)) =
          map (\<lambda>k. (k, if k = x then Count (count_list xs x + 1) else Count (count_list xs k)))
            (firstOccurrences xs)"
      using True setProperty_old [of "firstOccurrences xs" x "\<lambda>k. Count (count_list xs k)"]
      by (simp add: counted_def set_firstOccurrences distinct_firstOccurrences)
    also have "\<dots> = map (counted (xs @ [x])) (firstOccurrences xs)"
      by (intro map_cong) (auto simp: counted_def set_firstOccurrences)
    finally show ?thesis
      using True has look unfolding d by (simp add: countOccurrence_def firstOccurrences_snoc)
  next
    case False
    then have has: "\<not> hasProperty ?d x" using x unfolding hasProperty_def keyset by simp
    have new: "x \<notin> set (map fst ?d)" using False unfolding keyset .
    have "map (counted (xs @ [x])) (firstOccurrences xs) = ?d"
      using False by (intro map_cong) (auto simp: counted_def set_firstOccurrences)
    then show ?thesis
      using False has setProperty_new [OF new, of "Count 1"] unfolding d
      by (simp add: countOccurrence_def firstOccurrences_snoc counted_def)
  qed
qed

lemma objectEntries_plain:
  "\<forall>item \<in> set d. \<not> isArrayIndex (fst item) \<Longrightarrow> objectEntries d = d"
proof -
  assume a: "\<forall>item \<in> set d. \<not> isArrayIndex (fst item)"
  then have "filter (\<lambda>item. isArrayIndex (fst item)) d = []" by (simp add: filter_empty_conv)
  moreover have "filter (\<lambda>item. \<not> isArrayIndex (fst item)) d = d" using a by (simp add: filter_id_conv)
  ultimately show ?thesis by (simp add: objectEntries_def)
qed

lemma insertSorted_counted:
  "insertSorted compareItems (counted arr k) (map (counted arr) ks) =
   map (counted arr) (insort_key (\<lambda>v. - int (count_list arr v)) k ks)"
  by (induction ks) (auto simp: compareItems_def counted_def)

lemma arraySort_counted:
  "arraySort compareItems (map (counted arr) ks) =
   map (counted arr) (sort_key (\<lambda>v. - int (count_list arr v)) ks)"
proof (induction ks)
  case Nil
  then show ?case by (simp add: arraySort_def)
next
  case (Cons k ks)
  then show ?case by (simp add: arraySort_def insertSorted_counted)
qed

lemma slice0_nonneg: "0 \<le> n \<Longrightarrow> slice0 xs (min n (int (length xs))) = take (nat (min n (int (length xs)))) xs"
  by (simp add: slice0_def min_def)

text \<open>
  Claim C9, as amended. For items that are neither array indices nor names inherited from
  \<open>Object.prototype\<close>, and \<open>n\<close> not negative, \<open>mostFrequent\<close> counts the occurrences of
  each distinct value, sorts by descending count with ties in the order of first
  occurrence, and returns the first \<open>min(n, distinctCount)\<close> values.
\<close>

theorem mostFrequent_topN:
  assumes "plainItems arr" and "0 \<le> n"
  shows "mostFrequent arr n = topN arr n"
proof -
  let ?ks = "firstOccurrences arr"
  let ?sorted = "sort_key (\<lambda>v. - int (count_list arr v)) ?ks"
  have d: "foldl countOccurrence [] arr = map (counted arr) ?ks"
    using assms(1) by (rule countDict_plain)
  have "\<forall>item \<in> set (map (counted arr) ?ks). \<not> isArrayIndex (fst item)"
    using assms(1)
    by (auto simp: counted_def plainItems_def list_all_iff set_firstOccurrences)
  then have e: "objectEntries (map (counted arr) ?ks) = map (counted arr) ?ks"
    by (rule objectEntries_plain)
  have s: "arraySort compareItems (map (counted arr) ?ks) = map (counted arr) ?sorted"
    by (rule arraySort_counted)
  have len: "length (map (counted arr) ?sorted) = length ?ks" by simp
  have "mostFrequent arr n =
        map fst (slice0 (map (counted arr) ?sorted) (min n (int (length ?ks))))"
    by (simp add: mostFrequent_def d e s Let_def)
  also have "\<dots> = map fst (take (nat (min n (int (length ?ks)))) (map (counted arr) ?sorted))"
    using slice0_nonneg [OF assms(2), of "map (counted arr) ?sorted"] by (simp only: len)
  also have "\<dots> = take (nat (min n (int (length ?ks)))) ?sorted"
    by (simp add: take_map comp_def counted_def)
  finally show ?thesis by (simp add: topN_def Let_def)
qed

theorem mostFrequent_topN_witness:
  "mostFrequent (map js [''a'', ''b'', ''a'', ''c'', ''b'', ''a'']) 2 = map js [''a'', ''b'']"
proof -
  have p: "plainItems (map js [''a'', ''b'', ''a'', ''c'', ''b'', ''a''])" by code_simp
  have "mostFrequent (map js [''a'', ''b'', ''a'', ''c'', ''b'', ''a'']) 2
        = topN (map js [''a'', ''b'', ''a'', ''c'', ''b'', ''a'']) 2"
    using mostFrequent_topN [OF p, of 2] by simp
  also have "\<dots> = map js [''a'', ''b'']" by code_simp
  finally show ?thesis .
qed

text \<open>
  Claim C9 as it is stated fails on an item that is an array index, which \<open>Object.keys\<close>
  lists first whatever its first occurrence; on an item that is a name inherited from
  \<open>Object.prototype\<close>, whose count is not a number, so that it stays where it is in the
  sort; and for a negative \<open>n\<close>, where \<open>slice\<close> counts from the end.
\<close>

theorem mostFrequent_index_keys_counterexample:
  "mostFrequent (map js [''b'', ''1'']) 2 = map js [''1'', ''b'']
   \<and> topN (map js [''b'', ''1'']) 2 = map js [''b'', ''1'']
   \<and> mostFrequent (map js [''constructor'', ''a'', ''a'']) 1 = map js [''constructor'']
   \<and> topN (map js [''constructor'', ''a'', ''a'']) 1 = map js [''a'']
   \<and> mostFrequent (map js [''a'', ''b'']) (- 1) = map js [''a'']
   \<and> topN (map js [''a'', ''b'']) (- 1) = []"
  by code_simp

section \<open>Properties of the recommendations\<close>

lemma length_mostFrequent: "0 \<le> n \<Longrightarrow> length (mostFrequent arr n) \<le> nat n"
  by (auto simp: mostFrequent_def slice0_def Let_def min_def)

lemma length_workingTags: "length (workingTags gameDB threadDB) \<le> 5"
  using length_mostFrequent [of MAX_TAGS] by (simp add: workingTags_def MAX_TAGS_def)

lemma recommendGames_turn_pops:
  "recommendGames_turn getLatestUpdates ids tags validGames = Inr (validGames', tags') \<Longrightarrow>
   tags' = butlast tags"
  by (auto simp: recommendGames_turn_def split: sum.splits)

lemma take_butlast_shift:
  "tags \<noteq> [] \<Longrightarrow>
   map (\<lambda>k. take (length tags - k) tags) [0..<Suc m] =
   tags # map (\<lambda>k. take (length (butlast tags) - k) (butlast tags)) [0..<m]"
proof -
  assume ne: "tags \<noteq> []"
  have "map (\<lambda>k. take (length tags - k) tags) [0..<Suc m] =
        take (length tags - 0) tags # map (\<lambda>k. take (length tags - Suc k) tags) [0..<m]"
    by (simp only: upt_conv_Cons [of 0 "Suc m"] map_Suc_upt [symmetric] list.map map_map comp_def)
  moreover have "\<And>k. take (length tags - Suc k) tags = take (length (butlast tags) - k) (butlast tags)"
    by (simp add: butlast_conv_take min_def)
  ultimately show ?thesis by simp
qed

lemma recommendGames_loop_queries:
  "\<exists>m. 1 \<le> m \<and> m \<le> max 1 (length tags) \<and>
       fst (recommendGames_loop getLatestUpdates ids tags validGames queried) =
         queried @ map (\<lambda>k. take (length tags - k) tags) [0..<m]"
proof (induction getLatestUpdates ids tags validGames queried rule: recommendGames_loop.induct)
  case (1 getLatestUpdates ids tags validGames queried)
  show ?case
  proof (cases "recommendGames_turn getLatestUpdates ids tags validGames")
    case (Inl e)
    then have "fst (recommendGames_loop getLatestUpdates ids tags validGames queried) =
        queried @ map (\<lambda>k. take (length tags - k) tags) [0..<1]"
      by (subst recommendGames_loop.simps) simp
    then show ?thesis by (intro exI [of _ 1]) simp
  next
    case (Inr turn)
    obtain validGames' tags' where turn: "turn = (validGames', tags')" by (cases turn)
    with Inr have pop: "tags' = butlast tags" by (simp add: recommendGames_turn_pops)
    show ?thesis
    proof (cases "length validGames' < MAX_GAMES \<and> length tags' > 0")
      case False
      with Inr turn have "fst (recommendGames_loop getLatestUpdates ids tags validGames queried) =
          queried @ map (\<lambda>k. take (length tags - k) tags) [0..<1]"
        by (subst recommendGames_loop.simps) auto
      then show ?thesis by (intro exI [of _ 1]) simp
    next
      case True
      then have ne: "tags \<noteq> []" using pop by auto
      from "1.IH" [OF Inr turn [symmetric] True]
      obtain m where m: "1 \<le> m" "m \<le> max 1 (length tags')"
        and q: "fst (recommendGames_loop getLatestUpdates ids tags' validGames' (queried @ [tags])) =
                (queried @ [tags]) @ map (\<lambda>k. take (length tags' - k) tags') [0..<m]"
        by blast
      have "fst (recommendGames_loop getLatestUpdates ids tags validGames queried) =
            fst (recommendGames_loop getLatestUpdates ids tags' validGames' (queried @ [tags]))"
        using Inr turn True by (subst recommendGames_loop.simps) simp
      also have "\<dots> = (queried @ [tags]) @
            map (\<lambda>k. take (length (butlast tags) - k) (butlast tags)) [0..<m]"
        using q unfolding pop .
      also have "\<dots> = queried @ map (\<lambda>k. take (length tags - k) tags) [0..<Suc m]"
        unfolding take_butlast_shift [OF ne] by simp
      finally have "fst (recommendGames_loop getLatestUpdates ids tags validGames queried) =
          queried @ map (\<lambda>k. take (length tags - k) tags) [0..<Suc m]" .
      moreover have "Suc m \<le> max 1 (length tags)"
      proof -
        from True have "1 \<le> length tags'" by (cases tags') auto
        with m have "m \<le> length tags'" by simp
        moreover have "Suc (length tags') = length tags" using ne pop by simp
        ultimately show ?thesis by simp
      qed
      ultimately show ?thesis by (intro exI [of _ "Suc m"]) simp
    qed
  qed
qed

lemma fst_recommendGames:
  "fst (recommendGames getLatestUpdates gameDB threadDB) =
   fst (recommendGames_loop getLatestUpdates (map g_id (GameDB_search gameDB allGames))
          (workingTags gameDB threadDB) [] [])"
  by (simp add: recommendGames_def workingTags_def Let_def split: prod.splits)

text \<open>
  Claim C4, as amended. \<open>recommendGames\<close> is a total function. The tag list starts with
  at most five tags; the loop queries with the tag list it starts with, then with one tag
  fewer at each further turn; it makes at least one and at most \<open>max 1 n\<close> turns for \<open>n\<close>
  tags at the start, so never more than six; and a turn that starts with a tag list that
  is not empty leaves exactly one tag fewer.
\<close>

theorem recommendGames_terminates:
  "length (workingTags gameDB threadDB) \<le> 5
   \<and> fst (recommendGames getLatestUpdates gameDB threadDB) =
       map (\<lambda>k. take (length (workingTags gameDB threadDB) - k) (workingTags gameDB threadDB))
         [0..<length (fst (recommendGames getLatestUpdates gameDB threadDB))]
   \<and> 1 \<le> length (fst (recommendGames getLatestUpdates gameDB threadDB))
   \<and> length (fst (recommendGames getLatestUpdates gameDB threadDB))
       \<le> max 1 (length (workingTags gameDB threadDB))
   \<and> length (fst (recommendGames getLatestUpdates gameDB threadDB)) \<le> 6
   \<and> (recommendGames_turn getLatestUpdates ids tags validGames = Inr (validGames', tags')
        \<and> tags \<noteq> [] \<longrightarrow> Suc (length tags') = length tags)"
proof -
  let ?tags = "workingTags gameDB threadDB"
  let ?q = "fst (recommendGames getLatestUpdates gameDB threadDB)"
  obtain m where m: "1 \<le> m" "m \<le> max 1 (length ?tags)"
    and q: "?q = map (\<lambda>k. take (length ?tags - k) ?tags) [0..<m]"
    using recommendGames_loop_queries [of ?tags getLatestUpdates
        "map g_id (GameDB_search gameDB allGames)" "[]" "[]"]
    unfolding fst_recommendGames by auto
  have len: "length ?q = m" by (subst q) simp
  have five: "length ?tags \<le> 5" by (rule length_workingTags)
  have pop: "recommendGames_turn getLatestUpdates ids tags validGames = Inr (validGames', tags')
        \<and> tags \<noteq> [] \<longrightarrow> Suc (length tags') = length tags"
    by (auto dest: recommendGames_turn_pops)
  have "?q = map (\<lambda>k. take (length ?tags - k) ?tags) [0..<length ?q]"
    unfolding len by (rule q)
  with m five pop len show ?thesis by (simp only: ) auto
qed

theorem recommendGames_terminates_witness:
  "length (workingTags [taggedGame 1 [''a'', ''b'', ''a'', ''c'']] []) \<le> 5
   \<and> fst (recommendGames noResults [taggedGame 1 [''a'', ''b'', ''a'', ''c'']] [])
       = [map js [''a'', ''b'', ''c''], map js [''a'', ''b''], map js [''a'']]
   \<and> length (fst (recommendGames noResults [taggedGame 1 [''a'', ''b'', ''a'', ''c'']] [])) \<le> 6
   \<and> recommendGames_turn noResults [1] (map js [''a'', ''b'', ''c'']) []
       = Inr ([], map js [''a'', ''b''])
   \<and> Suc (length (map js [''a'', ''b''])) = length (map js [''a'', ''b'', ''c''])"
proof -
  note inst = recommendGames_terminates [of "[taggedGame 1 [''a'', ''b'', ''a'', ''c'']]" "[]"
      noResults "[1]" "map js [''a'', ''b'', ''c'']" "[]" "[]" "map js [''a'', ''b'']"]
  have q: "fst (recommendGames noResults [taggedGame 1 [''a'', ''b'', ''a'', ''c'']] [])
       = [map js [''a'', ''b'', ''c''], map js [''a'', ''b''], map js [''a'']]"
    by code_simp
  have turn: "recommendGames_turn noResults [1] (map js [''a'', ''b'', ''c'']) []
       = Inr ([], map js [''a'', ''b''])"
    by code_simp
  have ne: "map js [''a'', ''b'', ''c''] \<noteq> []" by simp
  from inst turn ne
  have "Suc (length (map js [''a'', ''b''])) = length (map js [''a'', ''b'', ''c''])"
    by blast
  moreover from inst
  have "length (workingTags [taggedGame 1 [''a'', ''b'', ''a'', ''c'']] []) \<le> 5"
    and "length (fst (recommendGames noResults [taggedGame 1 [''a'', ''b'', ''a'', ''c'']] []))
           \<le> 6"
    by blast+
  ultimately show ?thesis using q turn by blast
qed

text \<open>
  Claim C4 as it is stated fails where no tag is known: the loop makes one turn, with
  the empty tag list, and \<open>pop\<close> leaves the list empty instead of one shorter.
\<close>

theorem recommendGames_empty_tags_counterexample:
  "fst (recommendGames noResults [] []) = [[]]
   \<and> recommendGames_turn noResults [] [] [] = Inr ([], [])"
  by code_simp

lemma addValidGame_invariant:
  "validInvariant ids validGames \<Longrightarrow> validInvariant ids (addValidGame ids validGames game)"
  by (auto simp: validInvariant_def addValidGame_def find_None_iff)

lemma foldl_addValidGame_invariant:
  "validInvariant ids validGames \<Longrightarrow> validInvariant ids (foldl (addValidGame ids) validGames games)"
  by (induction games arbitrary: validGames) (simp_all add: addValidGame_invariant)

lemma recommendGames_turn_invariant:
  "recommendGames_turn getLatestUpdates ids tags validGames = Inr (validGames', tags') \<Longrightarrow>
   validInvariant ids validGames \<Longrightarrow> validInvariant ids validGames'"
  by (auto simp: recommendGames_turn_def foldl_addValidGame_invariant split: sum.splits)

lemma recommendGames_loop_invariant:
  "snd (recommendGames_loop getLatestUpdates ids tags validGames queried) = Inr result \<Longrightarrow>
   validInvariant ids validGames \<Longrightarrow> validInvariant ids result"
proof (induction getLatestUpdates ids tags validGames queried rule: recommendGames_loop.induct)
  case (1 getLatestUpdates ids tags validGames queried)
  show ?case
  proof (cases "recommendGames_turn getLatestUpdates ids tags validGames")
    case (Inl e)
    with "1.prems"(1) show ?thesis by (subst (asm) recommendGames_loop.simps) simp
  next
    case (Inr turn)
    obtain validGames' tags' where turn: "turn = (validGames', tags')" by (cases turn)
    from Inr turn "1.prems"(2) have inv: "validInvariant ids validGames'"
      by (auto dest: recommendGames_turn_invariant)
    show ?thesis
    proof (cases "length validGames' < MAX_GAMES \<and> length tags' > 0")
      case True
      with Inr turn "1.prems"(1)
      have "snd (recommendGames_loop getLatestUpdates ids tags' validGames' (queried @ [tags]))
              = Inr result"
        by (subst (asm) recommendGames_loop.simps) simp
      with "1.IH" [OF Inr turn [symmetric] True] inv show ?thesis by simp
    next
      case False
      with Inr turn "1.prems"(1) have "result = validGames'"
        by (subst (asm) recommendGames_loop.simps) auto
      with inv show ?thesis by simp
    qed
  qed
qed

lemma snd_recommendGames:
  "snd (recommendGames getLatestUpdates gameDB threadDB) =
   (case snd (recommendGames_loop getLatestUpdates (map g_id gameDB)
                (workingTags gameDB threadDB) [] []) of
      Inl e \<Rightarrow> Inl e
    | Inr validGames \<Rightarrow> Inr (map GIE_convert validGames))"
  by (simp add: recommendGames_def workingTags_def GameDB_search_all Let_def split: prod.splits)

text \<open>
  Claim C5. What \<open>recommendGames\<close> returns has at most ten entries, no two entries
  with the same id, and no entry with the id of a record read from the library store.
\<close>

theorem recommendGames_result:
  assumes "snd (recommendGames getLatestUpdates gameDB threadDB) = Inr result"
  shows "length result \<le> 10 \<and> distinct (map g_id result)
         \<and> set (map g_id result) \<inter> set (map g_id (GameDB_search gameDB allGames)) = {}"
proof -
  from assms obtain validGames where
    loop: "snd (recommendGames_loop getLatestUpdates (map g_id gameDB)
                  (workingTags gameDB threadDB) [] []) = Inr validGames"
    and result: "result = map GIE_convert validGames"
    by (auto simp: snd_recommendGames split: sum.splits)
  have "validInvariant (map g_id gameDB) []" by (simp add: validInvariant_def)
  with loop have "validInvariant (map g_id gameDB) validGames"
    by (rule recommendGames_loop_invariant)
  moreover have "map g_id result = map gi_id validGames"
    by (simp add: result GIE_convert_def comp_def)
  moreover have "length result = length validGames" by (simp add: result)
  ultimately show ?thesis
    by (simp add: validInvariant_def MAX_GAMES_def GameDB_search_all)
qed

theorem recommendGames_result_witness:
  "snd (recommendGames sameResults [taggedGame 3 [''a'', ''b'']] [])
     = Inr (map (\<lambda>i. GIE_convert (catalogEntry i coolUrl (js ''Cool Game''))) [1, 2, 4])
   \<and> length (map (\<lambda>i. GIE_convert (catalogEntry i coolUrl (js ''Cool Game''))) [1, 2, 4])
       \<le> (10::nat)
   \<and> distinct (map g_id (map (\<lambda>i. GIE_convert (catalogEntry i coolUrl (js ''Cool Game'')))
                           [1, 2, 4]))
   \<and> set (map g_id (map (\<lambda>i. GIE_convert (catalogEntry i coolUrl (js ''Cool Game'')))
                      [1, 2, 4]))
       \<inter> set (map g_id (GameDB_search [taggedGame 3 [''a'', ''b'']] allGames)) = {}"
proof -
  have r: "snd (recommendGames sameResults [taggedGame 3 [''a'', ''b'']] [])
     = Inr (map (\<lambda>i. GIE_convert (catalogEntry i coolUrl (js ''Cool Game''))) [1, 2, 4])"
    by code_simp
  from recommendGames_result [OF r] r show ?thesis by (simp only: simp_thms)
qed

section \<open>The other examples of the specification, run on the code\<close>

lemma getGameVersionFromName_example:
  "getGameVersionFromName (map asciiUpper) (js ''MyGame [v.1.2.3.4]'') = js ''1.2.3.4''
   \<and> getGameVersionFromName (map asciiUpper) (js ''MyGame'') = js ''Unknown''"
  by code_simp

lemma cleanGameName_example:
  "cleanGameName (map asciiLower) (map asciiUpper) (js ''Some Game [MOD][v.1.0]'')
     = js ''Some Game''"
  by code_simp

lemma matchThreadId_example:
  "map_option (\<lambda>match. parseInt (remove1 0x2E match)) (matchThreadId coolUrl)
     = Some (Finite 12345)
   \<and> matchThreadId (js ''https://site.example/threads/cool-game/'') = None"
  by code_simp

end
